theory Spec2Isabelle
  imports Main "HOL-Library.AList"
begin

section \<open>The sample extension of the glirc IRC client\<close>

text \<open>
  The development embeds \<^verbatim>\<open>src/sample-extension/sample.c\<close>: three functions
  \<^verbatim>\<open>start\<close>, \<^verbatim>\<open>stop\<close> and \<^verbatim>\<open>process_message\<close> and the structure
  \<^verbatim>\<open>extension\<close> that hands them to the host. The functions do nothing but call
  the C library (\<^verbatim>\<open>fopen\<close>, \<^verbatim>\<open>fclose\<close>, \<^verbatim>\<open>strndup\<close>, \<^verbatim>\<open>fprintf\<close>,
  \<^verbatim>\<open>fflush\<close>, \<^verbatim>\<open>free\<close>), so the first part is a model of the world those calls
  act on and of the calls themselves; the second part is the plugin, line by line.
\<close>

subsection \<open>Bytes, pointers and undefined behaviour\<close>

text \<open>
  A C \<^verbatim>\<open>char\<close> is an Isabelle \<^typ>\<open>char\<close> (eight bits), a byte sequence a
  \<^typ>\<open>string\<close>. A pointer is an address, with \<^verbatim>\<open>NULL\<close> the address 0. A value of
  type \<^verbatim>\<open>size_t\<close> is a natural number: the program does no arithmetic on it.
\<close>

type_synonym ptr = nat

definition NULL :: ptr where
  "NULL = 0"

definition NUL :: char where
  "NUL = CHR 0x00"

definition newline :: char where
  "newline = CHR 0x0A"

text \<open>
  The C standard leaves these uses undefined; the model makes each one a result of
  its own, so that no theorem about a successful call can hide one.
\<close>

datatype error =
    Invalid_stream   \<comment> \<open>a stdio call on a pointer that is not an open stream\<close>
  | Invalid_string   \<comment> \<open>\<^verbatim>\<open>%s\<close> given a pointer that is not an allocated block\<close>
  | Read_overrun     \<comment> \<open>a read past the end of a byte array\<close>
  | Invalid_free     \<comment> \<open>\<^verbatim>\<open>free\<close> of a pointer that is not an allocated block\<close>
  | Invalid_object   \<comment> \<open>a read through a pointer that refers to no object\<close>

subsection \<open>The world of the C library\<close>

text \<open>
  An open stream (\<^verbatim>\<open>FILE\<close>) knows its file, the offset in the file at which its
  next flushed byte lands, and the bytes written to it that are not flushed yet.
\<close>

record FILE_obj =
  path :: string
  pos :: nat
  buf :: string

text \<open>
  The world: the files on disk by name, the open streams and the allocated blocks by
  address, the number of bytes the allocator can still hand out, and the names that
  \<^verbatim>\<open>fopen\<close> is able to open for writing (permissions, descriptors, and so on).
  Files are named by path only, and a write to an open stream never fails.
\<close>

record world =
  disk :: "string \<rightharpoonup> string"
  streams :: "(ptr \<times> FILE_obj) list"
  heap :: "(ptr \<times> string) list"
  heap_avail :: nat
  can_open :: "string \<Rightarrow> bool"

text \<open>A new object gets an address above every address in use; it is never \<^verbatim>\<open>NULL\<close>.\<close>

definition fresh_ptr :: "(ptr \<times> 'a) list \<Rightarrow> ptr" where
  "fresh_ptr al = Suc (fold max (map fst al) 0)"

text \<open>What a pointer refers to: \<^verbatim>\<open>NULL\<close> refers to nothing.\<close>

definition stream_of :: "world \<Rightarrow> ptr \<Rightarrow> FILE_obj option" where
  "stream_of w S = (if S = NULL then None else map_of (streams w) S)"

definition block_of :: "world \<Rightarrow> ptr \<Rightarrow> string option" where
  "block_of w p = (if p = NULL then None else map_of (heap w) p)"

definition contents :: "(string \<rightharpoonup> string) \<Rightarrow> string \<Rightarrow> string" where
  "contents d p = (case d p of None \<Rightarrow> [] | Some c \<Rightarrow> c)"

text \<open>
  Writing \<open>data\<close> at offset \<open>off\<close> of a file: the bytes replace what was there, a gap
  between the end of the file and \<open>off\<close> reads as zero bytes, and writing nothing
  changes nothing.
\<close>

definition write_at :: "nat \<Rightarrow> string \<Rightarrow> string \<Rightarrow> string" where
  "write_at off data c =
     (if data = [] then c
      else take off c @ replicate (off - length c) NUL @ data @ drop (off + length data) c)"

definition flush_stream :: "FILE_obj \<Rightarrow> (string \<rightharpoonup> string) \<Rightarrow> (string \<rightharpoonup> string)" where
  "flush_stream f d =
     (if buf f = [] then d
      else d(path f \<mapsto> write_at (pos f) (buf f) (contents d (path f))))"

text \<open>
  \<^verbatim>\<open>fopen(path, "w")\<close>: on failure \<^verbatim>\<open>NULL\<close> and an unchanged world; on success
  the file is created or truncated to length zero and a new stream is positioned at
  its start.
\<close>

definition fopen_w :: "string \<Rightarrow> world \<Rightarrow> ptr \<times> world" where
  "fopen_w p w =
     (if \<not> can_open w p then (NULL, w)
      else let h = fresh_ptr (streams w)
           in (h, w\<lparr>disk := (disk w)(p \<mapsto> []),
                     streams := (h, \<lparr>path = p, pos = 0, buf = []\<rparr>) # streams w\<rparr>))"

text \<open>\<^verbatim>\<open>fclose(S)\<close>: flushes the stream and ends its life.\<close>

definition fclose :: "ptr \<Rightarrow> world \<Rightarrow> error + world" where
  "fclose S w =
     (case stream_of w S of
        None \<Rightarrow> Inl Invalid_stream
      | Some f \<Rightarrow> Inr (w\<lparr>disk := flush_stream f (disk w),
                          streams := AList.delete S (streams w)\<rparr>))"

text \<open>
  Flushing one stream: its unflushed bytes go to the file at the stream's offset,
  which advances by their number.
\<close>

definition flush_at :: "ptr \<Rightarrow> FILE_obj \<Rightarrow> world \<Rightarrow> world" where
  "flush_at S f w =
     w\<lparr>disk := flush_stream f (disk w),
       streams := AList.update S (f\<lparr>pos := pos f + length (buf f), buf := []\<rparr>) (streams w)\<rparr>"

definition flush_open :: "ptr \<Rightarrow> world \<Rightarrow> world" where
  "flush_open S w = (case stream_of w S of None \<Rightarrow> w | Some f \<Rightarrow> flush_at S f w)"

text \<open>\<^verbatim>\<open>fflush(S)\<close>: flushes the stream \<open>S\<close>, and every open stream when \<open>S\<close> is \<^verbatim>\<open>NULL\<close>.\<close>

definition fflush :: "ptr \<Rightarrow> world \<Rightarrow> error + world" where
  "fflush S w =
     (if S = NULL then Inr (fold flush_open (map fst (streams w)) w)
      else case stream_of w S of
             None \<Rightarrow> Inl Invalid_stream
           | Some f \<Rightarrow> Inr (flush_at S f w))"

text \<open>
  \<^verbatim>\<open>strnlen(s, n)\<close>: the number of bytes before the first \<^verbatim>\<open>NUL\<close> among the
  first \<open>n\<close> bytes of \<open>s\<close>.
\<close>

definition strnlen :: "string \<Rightarrow> nat \<Rightarrow> nat" where
  "strnlen s n = length (takeWhile (\<lambda>c. c \<noteq> NUL) (take n s))"

text \<open>
  \<^verbatim>\<open>strndup(s, n)\<close>, where \<open>s\<close> is the byte array the pointer refers to: it reads
  until a \<^verbatim>\<open>NUL\<close> or \<open>n\<close> bytes, which overruns an array that is shorter than \<open>n\<close>
  and holds no \<^verbatim>\<open>NUL\<close>; it returns \<^verbatim>\<open>NULL\<close> when the allocator cannot supply
  the copy and its terminator, and otherwise a new block holding the bytes read and
  a terminating \<^verbatim>\<open>NUL\<close>.
\<close>

definition strndup :: "string \<Rightarrow> nat \<Rightarrow> world \<Rightarrow> error + (ptr \<times> world)" where
  "strndup s n w =
     (let k = strnlen s n
      in if k = length s \<and> length s < n then Inl Read_overrun
         else if heap_avail w < Suc k then Inr (NULL, w)
         else let p = fresh_ptr (heap w)
              in Inr (p, w\<lparr>heap := (p, take k s @ [NUL]) # heap w,
                            heap_avail := heap_avail w - Suc k\<rparr>))"

text \<open>
  \<^verbatim>\<open>fprintf(S, "%s\n", cmd)\<close>: the bytes of the block at \<open>cmd\<close> up to its first
  \<^verbatim>\<open>NUL\<close>, then a newline, are added to the unflushed bytes of the stream.
\<close>

definition fprintf_s_nl :: "ptr \<Rightarrow> ptr \<Rightarrow> world \<Rightarrow> error + world" where
  "fprintf_s_nl S cmd w =
     (case stream_of w S of
        None \<Rightarrow> Inl Invalid_stream
      | Some f \<Rightarrow>
          (case block_of w cmd of
             None \<Rightarrow> Inl Invalid_string
           | Some b \<Rightarrow>
               if NUL \<notin> set b then Inl Read_overrun
               else Inr (w\<lparr>streams :=
                              AList.update S (f\<lparr>buf := buf f @ takeWhile (\<lambda>c. c \<noteq> NUL) b @ [newline]\<rparr>)
                                (streams w)\<rparr>)))"

text \<open>\<^verbatim>\<open>free(p)\<close>: nothing for \<^verbatim>\<open>NULL\<close>; otherwise the block goes back to the allocator.\<close>

definition free :: "ptr \<Rightarrow> world \<Rightarrow> error + world" where
  "free p w =
     (if p = NULL then Inr w
      else case block_of w p of
             None \<Rightarrow> Inl Invalid_free
           | Some b \<Rightarrow> Inr (w\<lparr>heap := AList.delete p (heap w),
                               heap_avail := heap_avail w + length b\<rparr>))"

subsection \<open>The host's interface\<close>

text \<open>
  Modelled from the spec: the header \<^verbatim>\<open>glirc-api.h\<close>, which declares
  \<^verbatim>\<open>struct glirc_message\<close> and \<^verbatim>\<open>struct glirc_extension\<close>, is not among the
  sources. The plugin reads \<^verbatim>\<open>msg->command.str\<close> and \<^verbatim>\<open>msg->command.len\<close>, so
  a string of the interface is a byte array with a length; the other parts of a
  message are the ones the specification names (prefix, parameters, tags). The field
  \<open>str\<close> holds the bytes that can be read at the C pointer.
\<close>

record glirc_string =
  str :: string
  len :: nat

record glirc_message =
  prefix :: glirc_string
  command :: glirc_string
  params :: "glirc_string list"
  tags :: "(glirc_string \<times> glirc_string) list"

subsection \<open>The plugin\<close>

definition log_path :: string where
  "log_path = ''sample-output.txt''"

definition start :: "world \<Rightarrow> ptr \<times> world" where
  "start w = fopen_w log_path w"

definition stop :: "ptr \<Rightarrow> world \<Rightarrow> error + world" where
  "stop S w = fclose S w"

definition process_message :: "ptr \<Rightarrow> glirc_message \<Rightarrow> world \<Rightarrow> error + world" where
  "process_message S msg w =
     (case strndup (str (command msg)) (len (command msg)) w of
        Inl e \<Rightarrow> Inl e
      | Inr (cmd, w1) \<Rightarrow>
          (case fprintf_s_nl S cmd w1 of
             Inl e \<Rightarrow> Inl e
           | Inr w2 \<Rightarrow>
               (case fflush S w2 of
                  Inl e \<Rightarrow> Inl e
                | Inr w3 \<Rightarrow> free cmd w3)))"



text \<open>
  The structure \<^verbatim>\<open>extension\<close> is given by designated initialisers: each names a
  member and the function stored there. A member that no initialiser names is a null
  pointer.
\<close>

datatype hook =
    Start_hook "world \<Rightarrow> ptr \<times> world"
  | Stop_hook "ptr \<Rightarrow> world \<Rightarrow> error + world"
  | Message_hook "ptr \<Rightarrow> glirc_message \<Rightarrow> world \<Rightarrow> error + world"

definition extension :: "(string \<times> hook) list" where
  "extension =
     [(''start'', Start_hook start),
      (''stop'', Stop_hook stop),
      (''process_message'', Message_hook process_message)]"

subsection \<open>The calling sequence and what a call writes\<close>

text \<open>
  Modelled from the spec: the host, which is not among the sources, drives the three
  lifecycle hooks. \<open>running S w\<close> says that \<open>w\<close> is a world in which the plugin
  runs with state \<open>S\<close>: \<^verbatim>\<open>start\<close> has returned the stream \<open>S\<close>, and since then
  the message handler has been called with \<open>S\<close> any number of times.
\<close>

inductive running :: "ptr \<Rightarrow> world \<Rightarrow> bool" for S :: ptr where
  started: "start w0 = (S, w) \<Longrightarrow> S \<noteq> NULL \<Longrightarrow> running S w"
| handled: "running S w \<Longrightarrow> process_message S msg w = Inr w' \<Longrightarrow> running S w'"

text \<open>
  The bytes a call has put into the file of the stream \<open>S\<close>, read back from the
  disk: those between the stream's offset before the call and its offset after it.
\<close>

definition written :: "ptr \<Rightarrow> world \<Rightarrow> world \<Rightarrow> string" where
  "written S w w' =
     (case stream_of w S of
        None \<Rightarrow> []
      | Some f \<Rightarrow>
          (case stream_of w' S of
             None \<Rightarrow> []
           | Some f' \<Rightarrow> take (pos f' - pos f) (drop (pos f) (contents (disk w') (path f')))))"

subsection \<open>Concrete worlds and messages\<close>

text \<open>
  A world before the plugin starts, in which an earlier run has left a log behind; the
  same world with a disk on which the log cannot be opened; and three messages.
\<close>

definition world0 :: world where
  "world0 = \<lparr>disk = [''sample-output.txt'' \<mapsto> ''JOIN'' @ [newline]], streams = [], heap = [],
             heap_avail = 64, can_open = (\<lambda>p. True)\<rparr>"

definition world_locked :: world where
  "world_locked = world0\<lparr>can_open := (\<lambda>p. False)\<rparr>"

definition no_string :: glirc_string where
  "no_string = \<lparr>str = [], len = 0\<rparr>"

definition msg_ping :: glirc_message where
  "msg_ping = \<lparr>prefix = no_string, command = \<lparr>str = ''PING'', len = 4\<rparr>,
                params = [\<lparr>str = ''irc.example.net'', len = 15\<rparr>], tags = []\<rparr>"

definition msg_ping_from :: glirc_message where
  "msg_ping_from = \<lparr>prefix = \<lparr>str = ''server'', len = 6\<rparr>, command = \<lparr>str = ''PING'', len = 4\<rparr>,
                     params = [], tags = [(\<lparr>str = ''time'', len = 4\<rparr>, \<lparr>str = ''12'', len = 2\<rparr>)]\<rparr>"

definition msg_nul :: glirc_message where
  "msg_nul = \<lparr>prefix = no_string, command = \<lparr>str = ''PI'' @ [NUL] @ ''NG'', len = 5\<rparr>,
               params = [], tags = []\<rparr>"

text \<open>The plugin started in \<open>world0\<close>: its state pointer, and the world it then runs in.\<close>

definition handle1 :: ptr where
  "handle1 = fst (start world0)"

definition world1 :: world where
  "world1 = snd (start world0)"

text \<open>The worlds after the running plugin has handled one message.\<close>

definition world2 :: world where
  "world2 = projr (process_message handle1 msg_ping world1)"

definition world_nul :: world where
  "world_nul = projr (process_message handle1 msg_nul world1)"

text \<open>
  Worlds in which the allocator has too little left for the copy of a command: four
  bytes and two bytes in the world of the started plugin, none after one message.
\<close>

definition world_short :: world where
  "world_short = world1\<lparr>heap_avail := 4\<rparr>"

definition world_tight :: world where
  "world_tight = world1\<lparr>heap_avail := 2\<rparr>"

definition world2_spent :: world where
  "world2_spent = world2\<lparr>heap_avail := 0\<rparr>"



section \<open>Properties\<close>

subsection \<open>Addresses\<close>

lemma fold_max_ge: "a \<le> fold max ks (a::nat)"
  by (induction ks arbitrary: a) (auto intro: order_trans [OF max.cobounded2])

lemma fold_max_mem: "k \<in> set ks \<Longrightarrow> k \<le> fold max ks (a::nat)"
proof (induction ks arbitrary: a)
  case Nil
  then show ?case by simp
next
  case (Cons x xs)
  show ?case
  proof (cases "k = x")
    case True
    have "x \<le> max x a" by simp
    also have "\<dots> \<le> fold max xs (max x a)" by (rule fold_max_ge)
    finally show ?thesis using True by simp
  next
    case False
    with Cons show ?thesis by simp
  qed
qed

lemma fresh_ptr_notin: "fresh_ptr al \<notin> fst ` set al"
proof
  assume "fresh_ptr al \<in> fst ` set al"
  then have "fresh_ptr al \<in> set (map fst al)" by simp
  then have "fresh_ptr al \<le> fold max (map fst al) 0" by (rule fold_max_mem)
  then show False by (simp add: fresh_ptr_def)
qed

lemma fresh_ptr_not_NULL: "fresh_ptr al \<noteq> NULL"
  by (simp add: fresh_ptr_def NULL_def)

subsection \<open>What the library calls compute\<close>

lemma take_strnlen: "take (strnlen s n) s = takeWhile (\<lambda>c. c \<noteq> NUL) (take n s)"
  unfolding strnlen_def
  by (metis append_eq_conv_conj takeWhile_dropWhile_id append_take_drop_id append.assoc)

lemma takeWhile_terminated:
  "takeWhile (\<lambda>c. c \<noteq> NUL) (takeWhile (\<lambda>c. c \<noteq> NUL) xs @ [NUL]) = takeWhile (\<lambda>c. c \<noteq> NUL) xs"
  by (induction xs) auto

lemma strndup_Inr:
  assumes "\<not> (strnlen s n = length s \<and> length s < n)" and "strnlen s n < heap_avail w"
  shows "strndup s n w =
           Inr (fresh_ptr (heap w),
                w\<lparr>heap := (fresh_ptr (heap w), takeWhile (\<lambda>c. c \<noteq> NUL) (take n s) @ [NUL]) # heap w,
                  heap_avail := heap_avail w - Suc (strnlen s n)\<rparr>)"
  using assms by (simp add: strndup_def Let_def take_strnlen)

lemma process_message_Inr:
  assumes S: "stream_of w S = Some f"
    and rd: "\<not> (strnlen (str (command msg)) (len (command msg)) = length (str (command msg))
               \<and> length (str (command msg)) < len (command msg))"
    and mem: "strnlen (str (command msg)) (len (command msg)) < heap_avail w"
  shows "process_message S msg w =
           Inr (w\<lparr>disk := flush_stream
                     (f\<lparr>buf := buf f @ takeWhile (\<lambda>c. c \<noteq> NUL) (take (len (command msg)) (str (command msg))) @ [newline]\<rparr>)
                     (disk w),
                  streams := AList.update S
                    (f\<lparr>pos := pos f + length (buf f) + strnlen (str (command msg)) (len (command msg)) + 1,
                       buf := []\<rparr>)
                    (streams w)\<rparr>)"
proof -
  let ?p = "fresh_ptr (heap w)"
  have SN: "S \<noteq> NULL" and Sm: "map_of (streams w) S = Some f"
    using S by (auto simp: stream_of_def split: if_splits)
  have del: "AList.delete ?p (heap w) = heap w"
    using fresh_ptr_notin [of "heap w"] by simp
  show ?thesis
    using rd mem SN Sm fresh_ptr_not_NULL [of "heap w"] del
    apply (simp add: process_message_def strndup_Inr fprintf_s_nl_def stream_of_def block_of_def
        fflush_def flush_at_def free_def update_conv' takeWhile_terminated)
    apply (simp add: strnlen_def add.assoc)
    done
qed

lemma process_message_InrD:
  assumes "process_message S msg w = Inr w'"
  shows "(\<exists>f. stream_of w S = Some f)
       \<and> \<not> (strnlen (str (command msg)) (len (command msg)) = length (str (command msg))
               \<and> length (str (command msg)) < len (command msg))
       \<and> strnlen (str (command msg)) (len (command msg)) < heap_avail w"
  using assms
  by (auto simp: process_message_def strndup_def Let_def fprintf_s_nl_def block_of_def stream_of_def
      split: if_splits sum.splits option.splits prod.splits)

subsection \<open>The stream of a running plugin\<close>

lemma write_at_end: "write_at (length c) d c = c @ d"
  by (simp add: write_at_def)

lemma read_back: "take (length d) (drop off (write_at off d c)) = d"
  by (simp add: write_at_def min_def)

lemma start_succeeds:
  assumes "start w0 = (S, w)" and "S \<noteq> NULL"
  shows "can_open w0 log_path
       \<and> S = fresh_ptr (streams w0)
       \<and> w = w0\<lparr>disk := (disk w0)(log_path \<mapsto> []),
                 streams := (S, \<lparr>path = log_path, pos = 0, buf = []\<rparr>) # streams w0\<rparr>"
  using assms by (auto simp: start_def fopen_w_def Let_def split: if_splits)

lemma running_stream:
  assumes "running S w"
  shows "\<exists>f. stream_of w S = Some f \<and> path f = log_path \<and> buf f = []
            \<and> pos f = length (contents (disk w) log_path)"
  using assms
proof (induction rule: running.induct)
  case (started w0 w)
  from start_succeeds [OF started.hyps]
  show ?case by (simp add: stream_of_def fresh_ptr_not_NULL contents_def)
next
  case (handled w msg w')
  then obtain f where f: "stream_of w S = Some f" "path f = log_path" "buf f = []"
    "pos f = length (contents (disk w) log_path)" by blast
  from process_message_InrD [OF handled.hyps(2)]
  have rd: "\<not> (strnlen (str (command msg)) (len (command msg)) = length (str (command msg))
               \<and> length (str (command msg)) < len (command msg))"
    and mem: "strnlen (str (command msg)) (len (command msg)) < heap_avail w" by simp_all
  have SN: "S \<noteq> NULL" using f(1) by (auto simp: stream_of_def split: if_splits)
  from process_message_Inr [OF f(1) rd mem] handled.hyps(2)
  have w': "w' = w\<lparr>disk := flush_stream
                     (f\<lparr>buf := buf f @ takeWhile (\<lambda>c. c \<noteq> NUL) (take (len (command msg)) (str (command msg))) @ [newline]\<rparr>)
                     (disk w),
                  streams := AList.update S
                    (f\<lparr>pos := pos f + length (buf f) + strnlen (str (command msg)) (len (command msg)) + 1,
                       buf := []\<rparr>)
                    (streams w)\<rparr>" by simp
  show ?case
    using f SN
    by (simp add: w' stream_of_def update_conv' flush_stream_def contents_def write_at_end strnlen_def)
qed

subsection \<open>What a call of the message handler writes\<close>

lemma readable_no_overrun:
  assumes "n \<le> length s"
  shows "\<not> (strnlen s n = length s \<and> length s < n)"
  using assms by simp

lemma strnlen_le_NUL:
  assumes "i < n" and "i < length s" and "s ! i = NUL"
  shows "strnlen s n \<le> i"
proof (rule ccontr)
  let ?t = "takeWhile (\<lambda>c. c \<noteq> NUL) (take n s)"
  assume "\<not> strnlen s n \<le> i"
  then have i: "i < length ?t" by (simp add: strnlen_def)
  then have "?t ! i \<in> set ?t" by (rule nth_mem)
  then have "?t ! i \<noteq> NUL" by (rule set_takeWhileD [THEN conjunct2])
  moreover have "?t ! i = take n s ! i" using i by (rule takeWhile_nth)
  moreover have "take n s ! i = s ! i" using assms(1) by simp
  ultimately show False using assms(3) by simp
qed

lemma no_NUL_whole:
  assumes "NUL \<notin> set (take n s)"
  shows "takeWhile (\<lambda>c. c \<noteq> NUL) (take n s) = take n s"
  using assms by (simp add: takeWhile_eq_all_conv) metis

lemma process_message_written:
  assumes S: "stream_of w S = Some f" and flushed: "buf f = []"
    and rd: "\<not> (strnlen (str (command msg)) (len (command msg)) = length (str (command msg))
               \<and> length (str (command msg)) < len (command msg))"
    and mem: "strnlen (str (command msg)) (len (command msg)) < heap_avail w"
  shows "\<exists>w'. process_message S msg w = Inr w'
           \<and> written S w w'
               = takeWhile (\<lambda>c. c \<noteq> NUL) (take (len (command msg)) (str (command msg))) @ [newline]"
proof -
  let ?line = "takeWhile (\<lambda>c. c \<noteq> NUL) (take (len (command msg)) (str (command msg))) @ [newline]"
  have SN: "S \<noteq> NULL" using S by (auto simp: stream_of_def split: if_splits)
  have len: "Suc (strnlen (str (command msg)) (len (command msg))) = length ?line"
    by (simp add: strnlen_def)
  have "take (length ?line) (drop (pos f) (write_at (pos f) ?line (contents (disk w) (path f)))) = ?line"
    by (rule read_back)
  then show ?thesis
    using S SN flushed len
    by (simp add: process_message_Inr [OF S rd mem] written_def stream_of_def update_conv'
        flush_stream_def contents_def)
qed

lemma process_message_no_memory:
  assumes "stream_of w S = Some f"
    and "\<not> (strnlen (str (command msg)) (len (command msg)) = length (str (command msg))
             \<and> length (str (command msg)) < len (command msg))"
    and "heap_avail w \<le> strnlen (str (command msg)) (len (command msg))"
  shows "process_message S msg w = Inl Invalid_string"
  using assms
  by (simp add: process_message_def strndup_def Let_def fprintf_s_nl_def block_of_def)


subsection \<open>The concrete worlds\<close>

lemma start_world0:
  "start world0 = (Suc 0, world0\<lparr>disk := (disk world0)(log_path \<mapsto> []),
       streams := [(Suc 0, \<lparr>path = log_path, pos = 0, buf = []\<rparr>)]\<rparr>)"
  by (simp add: start_def fopen_w_def world0_def fresh_ptr_def)

lemma handle1_eq: "handle1 = Suc 0"
  by (simp add: handle1_def start_world0)

lemma world1_eq:
  "world1 = \<lparr>disk = [''sample-output.txt'' \<mapsto> []],
             streams = [(Suc 0, \<lparr>path = ''sample-output.txt'', pos = 0, buf = []\<rparr>)],
             heap = [], heap_avail = 64, can_open = (\<lambda>p. True)\<rparr>"
  unfolding world1_def start_world0 by (simp add: world0_def log_path_def)

lemma running_world1: "running handle1 world1"
  unfolding handle1_def world1_def
  by (rule running.started [of world0]) (simp_all add: start_world0 NULL_def)

lemma stream_world1:
  "stream_of world1 handle1 = Some \<lparr>path = ''sample-output.txt'', pos = 0, buf = []\<rparr>"
  by (simp add: stream_of_def world1_eq handle1_eq NULL_def)

lemma avail_world1: "heap_avail world1 = 64"
  by (simp add: world1_eq)

lemma ping_readable: "len (command msg_ping) \<le> length (str (command msg_ping))"
  by (simp add: msg_ping_def)

lemma ping_fits: "strnlen (str (command msg_ping)) (len (command msg_ping)) < heap_avail world1"
  by (simp add: avail_world1) (simp add: msg_ping_def strnlen_def NUL_def)

lemma nul_readable: "len (command msg_nul) \<le> length (str (command msg_nul))"
  by (simp add: msg_nul_def)

lemma nul_fits: "strnlen (str (command msg_nul)) (len (command msg_nul)) < heap_avail world1"
  by (simp add: avail_world1) (simp add: msg_nul_def strnlen_def NUL_def)

lemma ping_world1: "process_message handle1 msg_ping world1 = Inr world2"
proof -
  have "\<exists>w'. process_message handle1 msg_ping world1 = Inr w'"
    using process_message_written
      [OF stream_world1 _ readable_no_overrun [OF ping_readable] ping_fits]
    by auto
  then show ?thesis by (auto simp: world2_def)
qed

lemma nul_world1: "process_message handle1 msg_nul world1 = Inr world_nul"
proof -
  have "\<exists>w'. process_message handle1 msg_nul world1 = Inr w'"
    using process_message_written
      [OF stream_world1 _ readable_no_overrun [OF nul_readable] nul_fits]
    by auto
  then show ?thesis by (auto simp: world_nul_def)
qed

lemma world2_eq:
  "world2 = \<lparr>disk = [''sample-output.txt'' \<mapsto> ''PING'' @ [newline]],
             streams = [(Suc 0, \<lparr>path = ''sample-output.txt'', pos = 5, buf = []\<rparr>)],
             heap = [], heap_avail = 64, can_open = (\<lambda>p. True)\<rparr>"
proof -
  have "process_message handle1 msg_ping world1 = Inr \<lparr>disk = [''sample-output.txt'' \<mapsto> ''PING'' @ [newline]],
             streams = [(Suc 0, \<lparr>path = ''sample-output.txt'', pos = 5, buf = []\<rparr>)],
             heap = [], heap_avail = 64, can_open = (\<lambda>p. True)\<rparr>"
    unfolding process_message_Inr
      [OF stream_world1 readable_no_overrun [OF ping_readable] ping_fits]
    by (simp add: msg_ping_def strnlen_def world1_eq handle1_eq flush_stream_def write_at_def
        contents_def NUL_def)
  then show ?thesis by (simp add: world2_def)
qed

lemma world_nul_eq:
  "world_nul = \<lparr>disk = [''sample-output.txt'' \<mapsto> ''PI'' @ [newline]],
             streams = [(Suc 0, \<lparr>path = ''sample-output.txt'', pos = 3, buf = []\<rparr>)],
             heap = [], heap_avail = 64, can_open = (\<lambda>p. True)\<rparr>"
proof -
  have "process_message handle1 msg_nul world1 = Inr \<lparr>disk = [''sample-output.txt'' \<mapsto> ''PI'' @ [newline]],
             streams = [(Suc 0, \<lparr>path = ''sample-output.txt'', pos = 3, buf = []\<rparr>)],
             heap = [], heap_avail = 64, can_open = (\<lambda>p. True)\<rparr>"
    unfolding process_message_Inr
      [OF stream_world1 readable_no_overrun [OF nul_readable] nul_fits]
    by (simp add: msg_nul_def strnlen_def world1_eq handle1_eq flush_stream_def write_at_def
        contents_def NUL_def)
  then show ?thesis by (simp add: world_nul_def)
qed

lemma running_world2: "running handle1 world2"
  by (rule running.handled [OF running_world1 ping_world1])

lemma stream_world2:
  "stream_of world2 handle1 = Some \<lparr>path = ''sample-output.txt'', pos = 5, buf = []\<rparr>"
  by (simp add: stream_of_def world2_eq handle1_eq NULL_def)

lemma same_command: "command msg_ping = command msg_ping_from"
  by (simp add: msg_ping_def msg_ping_from_def)

lemma ping_fits2: "strnlen (str (command msg_ping)) (len (command msg_ping)) < heap_avail world2"
  by (simp add: world2_eq) (simp add: msg_ping_def strnlen_def NUL_def)

lemma ping_from_readable: "len (command msg_ping_from) \<le> length (str (command msg_ping_from))"
  by (simp add: msg_ping_from_def)

lemma ping_from_fits:
  "strnlen (str (command msg_ping_from)) (len (command msg_ping_from)) < heap_avail world2"
  by (simp add: world2_eq) (simp add: msg_ping_from_def strnlen_def NUL_def)

lemma start_short:
  "start (world0\<lparr>heap_avail := 4\<rparr>) = (handle1, world_short)"
  by (simp add: world_short_def world1_eq handle1_eq)
     (simp add: start_def fopen_w_def world0_def fresh_ptr_def log_path_def)

lemma running_short: "running handle1 world_short"
  by (rule running.started [OF start_short]) (simp add: handle1_eq NULL_def)

lemma stream_short:
  "stream_of world_short handle1 = Some \<lparr>path = ''sample-output.txt'', pos = 0, buf = []\<rparr>"
  by (simp add: world_short_def stream_of_def world1_eq handle1_eq NULL_def)

lemma ping_clean: "NUL \<notin> set (take (len (command msg_ping)) (str (command msg_ping)))"
  by (simp add: msg_ping_def NUL_def)

lemma ping_short: "process_message handle1 msg_ping world_short = Inl Invalid_string"
  by (rule process_message_no_memory [OF stream_short readable_no_overrun [OF ping_readable]])
     (simp add: world_short_def msg_ping_def strnlen_def NUL_def)

lemma stream_tight:
  "stream_of world_tight handle1 = Some \<lparr>path = ''sample-output.txt'', pos = 0, buf = []\<rparr>"
  by (simp add: world_tight_def stream_of_def world1_eq handle1_eq NULL_def)

lemma nul_tight: "process_message handle1 msg_nul world_tight = Inl Invalid_string"
  by (rule process_message_no_memory [OF stream_tight readable_no_overrun [OF nul_readable]])
     (simp add: world_tight_def msg_nul_def strnlen_def NUL_def)

lemma stream_spent:
  "stream_of world2_spent handle1 = Some \<lparr>path = ''sample-output.txt'', pos = 5, buf = []\<rparr>"
  by (simp add: world2_spent_def stream_of_def world2_eq handle1_eq NULL_def)

lemma ping_from_spent: "process_message handle1 msg_ping_from world2_spent = Inl Invalid_string"
  by (rule process_message_no_memory [OF stream_spent readable_no_overrun [OF ping_from_readable]])
     (simp add: world2_spent_def)

lemma written_ping: "written handle1 world1 world2 = ''PING'' @ [newline]"
  by (simp add: written_def stream_world1 stream_world2)
     (simp add: world2_eq contents_def)







subsection \<open>Starting\<close>

text \<open>
  Claim C6. \<^verbatim>\<open>start\<close> opens \<^verbatim>\<open>sample-output.txt\<close> in mode \<^verbatim>\<open>"w"\<close>.
  Whenever it succeeds (the pointer it returns is not \<^verbatim>\<open>NULL\<close>), the log file is
  empty immediately afterwards, whatever it held before, and the stream returned is
  positioned at its start with nothing unflushed. As the world \<open>w\<close> is arbitrary, this
  holds for a restart after any earlier run: the log never accumulates.
\<close>

theorem start_truncates_log:
  assumes "fst (start w) \<noteq> NULL"
  shows "start w = fopen_w ''sample-output.txt'' w
       \<and> disk (snd (start w)) ''sample-output.txt'' = Some []
       \<and> stream_of (snd (start w)) (fst (start w))
           = Some \<lparr>path = ''sample-output.txt'', pos = 0, buf = []\<rparr>"
proof -
  obtain S w' where sw: "start w = (S, w')" by (cases "start w")
  with assms have "S \<noteq> NULL" by simp
  from start_succeeds [OF sw this] sw show ?thesis
    by (simp add: start_def stream_of_def log_path_def fresh_ptr_not_NULL)
qed

theorem start_truncates_log_witness:
  "disk world0 ''sample-output.txt'' = Some (''JOIN'' @ [newline])
   \<and> fst (start world0) \<noteq> NULL
   \<and> disk (snd (start world0)) ''sample-output.txt'' = Some []"
proof -
  have old: "disk world0 ''sample-output.txt'' = Some (''JOIN'' @ [newline])"
    by (simp add: world0_def)
  have ok: "fst (start world0) \<noteq> NULL"
    by (simp add: start_world0 NULL_def)
  from start_truncates_log [OF ok] old ok show ?thesis by blast
qed

subsection \<open>The registered hooks\<close>

text \<open>
  Claim C2. The structure \<^verbatim>\<open>extension\<close> registers exactly three hooks: its member
  \<^verbatim>\<open>start\<close> is the function \<^verbatim>\<open>start\<close>, its member \<^verbatim>\<open>stop\<close> is \<^verbatim>\<open>stop\<close>, its
  member \<^verbatim>\<open>process_message\<close> is \<^verbatim>\<open>process_message\<close>, and no other member is
  initialised.
\<close>

theorem extension_hooks:
  "map_of extension ''start'' = Some (Start_hook start)
   \<and> map_of extension ''stop'' = Some (Stop_hook stop)
   \<and> map_of extension ''process_message'' = Some (Message_hook process_message)
   \<and> map fst extension = [''start'', ''stop'', ''process_message'']"
  by (simp add: extension_def)

subsection \<open>Stopping\<close>

text \<open>
  Claim C5. For a running plugin, \<^verbatim>\<open>stop\<close> closes the stream that \<^verbatim>\<open>start\<close>
  returned and does nothing else: the world after the call is the world before it
  with that one stream removed, so the disk, the other streams and the allocator are
  as they were and no byte is written. (\<^verbatim>\<open>fclose\<close> flushes, but the message
  handler leaves nothing unflushed.)
\<close>

theorem stop_only_closes:
  assumes "running S w"
  shows "stop S w = Inr (w\<lparr>streams := AList.delete S (streams w)\<rparr>)
       \<and> stream_of (w\<lparr>streams := AList.delete S (streams w)\<rparr>) S = None"
proof -
  from running_stream [OF assms] obtain f where "stream_of w S = Some f" "buf f = []" by blast
  then show ?thesis
    by (simp add: stop_def fclose_def flush_stream_def stream_of_def delete_conv')
qed

theorem stop_only_closes_witness:
  "running handle1 world1
   \<and> stop handle1 world1 = Inr (world1\<lparr>streams := AList.delete handle1 (streams world1)\<rparr>)
   \<and> streams world1 = [(handle1, \<lparr>path = ''sample-output.txt'', pos = 0, buf = []\<rparr>)]
   \<and> AList.delete handle1 (streams world1) = []"
proof -
  have s1: "streams world1 = [(handle1, \<lparr>path = ''sample-output.txt'', pos = 0, buf = []\<rparr>)]"
    by (simp add: world1_eq handle1_eq)
  have s2: "AList.delete handle1 (streams world1) = []"
    by (simp add: s1)
  from stop_only_closes [OF running_world1] running_world1 s1 s2 show ?thesis by blast
qed

subsection \<open>Failures\<close>

text \<open>
  Claim C3. The plugin handles no failure. \<^verbatim>\<open>start\<close> returns what
  \<^verbatim>\<open>fopen("sample-output.txt", "w")\<close> returns, which is \<^verbatim>\<open>NULL\<close> with the world
  unchanged when the file cannot be opened. \<^verbatim>\<open>stop\<close> passes its argument to
  \<^verbatim>\<open>fclose\<close> unchecked, and \<^verbatim>\<open>process_message\<close> passes it to \<^verbatim>\<open>fprintf\<close>
  unchecked: given a pointer that is not an open stream (\<^verbatim>\<open>NULL\<close> above all) both
  calls are undefined behaviour, never a handled error.
\<close>

theorem no_failure_handling:
  "start w = fopen_w ''sample-output.txt'' w
   \<and> (\<not> can_open w ''sample-output.txt'' \<longrightarrow> start w = (NULL, w))
   \<and> stop S w = fclose S w
   \<and> (stream_of w S = None \<longrightarrow>
        stop S w = Inl Invalid_stream
        \<and> (process_message S msg w = Inl Read_overrun \<or> process_message S msg w = Inl Invalid_stream))"
  by (auto simp: start_def log_path_def fopen_w_def stop_def fclose_def process_message_def
      strndup_def Let_def fprintf_s_nl_def stream_of_def split: if_splits)

theorem no_failure_handling_witness:
  "\<not> can_open world_locked ''sample-output.txt''
   \<and> start world_locked = (NULL, world_locked)
   \<and> stream_of world_locked NULL = None
   \<and> stop NULL world_locked = Inl Invalid_stream
   \<and> process_message NULL msg_ping world_locked = Inl Invalid_stream"
proof -
  have locked: "\<not> can_open world_locked ''sample-output.txt''"
    by (simp add: world_locked_def)
  have none: "stream_of world_locked NULL = None"
    by (simp add: stream_of_def)
  have "process_message NULL msg_ping world_locked \<noteq> Inl Read_overrun"
    by (simp add: process_message_def strndup_def strnlen_def msg_ping_def Let_def NUL_def
        fprintf_s_nl_def stream_of_def)
  with no_failure_handling [of world_locked NULL msg_ping] locked none
  show ?thesis by blast
qed

subsection \<open>Logging a message\<close>

text \<open>
  Claim C1, as amended. For every incoming message, \<^verbatim>\<open>process_message\<close> called by a
  running plugin (with the \<open>len\<close> bytes of the command readable), whenever
  \<^verbatim>\<open>strndup\<close> can allocate its copy of the command, appends to the log file the
  bytes of the command that precede its first \<^verbatim>\<open>NUL\<close> byte, followed by a single
  newline character; for a command without a \<^verbatim>\<open>NUL\<close> byte that is exactly the
  command name and the newline. The rest of the message (prefix, parameters, tags)
  contributes nothing: any message with the same command leads to the same world.
\<close>

theorem process_message_logs_command:
  assumes "running S w"
    and "len (command msg) \<le> length (str (command msg))"
    and "strnlen (str (command msg)) (len (command msg)) < heap_avail w"
  shows "\<exists>w'. process_message S msg w = Inr w'
     \<and> contents (disk w') ''sample-output.txt''
         = contents (disk w) ''sample-output.txt''
           @ takeWhile (\<lambda>c. c \<noteq> NUL) (take (len (command msg)) (str (command msg))) @ [newline]
     \<and> (NUL \<notin> set (take (len (command msg)) (str (command msg))) \<longrightarrow>
          contents (disk w') ''sample-output.txt''
            = contents (disk w) ''sample-output.txt''
              @ take (len (command msg)) (str (command msg)) @ [newline])
     \<and> (\<forall>msg'. command msg' = command msg \<longrightarrow> process_message S msg' w = Inr w')"
proof -
  let ?s = "str (command msg)" and ?n = "len (command msg)"
  from running_stream [OF assms(1)] obtain f where f: "stream_of w S = Some f"
    "path f = log_path" "buf f = []" "pos f = length (contents (disk w) log_path)" by blast
  note eq = process_message_Inr [OF f(1) readable_no_overrun [OF assms(2)] assms(3)]
  then obtain w' where ok: "process_message S msg w = Inr w'" by blast
  have w': "w' = projr (process_message S msg w)" by (simp add: ok)
  have app: "contents (disk w') ''sample-output.txt''
          = contents (disk w) ''sample-output.txt''
            @ takeWhile (\<lambda>c. c \<noteq> NUL) (take ?n ?s) @ [newline]"
    using f(2-4) unfolding w' eq
    by (simp add: flush_stream_def contents_def write_at_end log_path_def)
  have whole: "contents (disk w') ''sample-output.txt''
          = contents (disk w) ''sample-output.txt'' @ take ?n ?s @ [newline]"
    if "NUL \<notin> set (take ?n ?s)"
    unfolding app no_NUL_whole [OF that] ..
  have indep: "process_message S msg' w = Inr w'" if "command msg' = command msg" for msg'
  proof -
    have "process_message S msg' w = process_message S msg w"
      using that by (simp add: process_message_def)
    then show ?thesis by (simp only: ok)
  qed
  from ok app whole indep show ?thesis by blast
qed

theorem process_message_logs_command_witness:
  "running handle1 world2
   \<and> len (command msg_ping_from) \<le> length (str (command msg_ping_from))
   \<and> strnlen (str (command msg_ping_from)) (len (command msg_ping_from)) < heap_avail world2
   \<and> NUL \<notin> set (take (len (command msg_ping_from)) (str (command msg_ping_from)))
   \<and> command msg_ping = command msg_ping_from
   \<and> contents (disk world2) ''sample-output.txt'' = ''PING'' @ [newline]
   \<and> contents (disk (projr (process_message handle1 msg_ping_from world2))) ''sample-output.txt''
       = ''PING'' @ [newline] @ ''PING'' @ [newline]
   \<and> process_message handle1 msg_ping world2 = process_message handle1 msg_ping_from world2"
proof -
  have clean: "NUL \<notin> set (take (len (command msg_ping_from)) (str (command msg_ping_from)))"
    by (simp add: msg_ping_from_def NUL_def)
  have before: "contents (disk world2) ''sample-output.txt'' = ''PING'' @ [newline]"
    by (simp add: world2_eq contents_def)
  have line: "take (len (command msg_ping_from)) (str (command msg_ping_from)) = ''PING''"
    by (simp add: msg_ping_from_def)
  from process_message_logs_command [OF running_world2 ping_from_readable ping_from_fits]
  obtain w' where w': "process_message handle1 msg_ping_from world2 = Inr w'"
    "NUL \<notin> set (take (len (command msg_ping_from)) (str (command msg_ping_from))) \<longrightarrow>
       contents (disk w') ''sample-output.txt''
         = contents (disk world2) ''sample-output.txt''
           @ take (len (command msg_ping_from)) (str (command msg_ping_from)) @ [newline]"
    "\<forall>msg'. command msg' = command msg_ping_from \<longrightarrow> process_message handle1 msg' world2 = Inr w'"
    by blast
  from w'(2) clean
  have after: "contents (disk (projr (process_message handle1 msg_ping_from world2))) ''sample-output.txt''
       = ''PING'' @ [newline] @ ''PING'' @ [newline]"
    by (simp add: w'(1) before line)
  from w'(3) same_command
  have same: "process_message handle1 msg_ping world2 = process_message handle1 msg_ping_from world2"
    by (simp add: w'(1))
  from running_world2 ping_from_readable ping_from_fits clean same_command before after same
  show ?thesis by blast
qed

text \<open>
  The claim as first stated, that exactly the command name and a newline are appended
  for every message, fails in two ways. For a command that holds a \<^verbatim>\<open>NUL\<close> byte,
  of the five bytes \<^verbatim>\<open>P I NUL N G\<close> only \<^verbatim>\<open>PI\<close> and the newline reach the
  file. And when the allocator has four bytes left, \<^verbatim>\<open>strndup\<close> cannot copy the
  command \<^verbatim>\<open>PING\<close> (five bytes with its terminator) and returns \<^verbatim>\<open>NULL\<close>,
  which the handler passes to \<^verbatim>\<open>%s\<close> unchecked: the call is undefined, and the
  command name is not what it writes.
\<close>

theorem process_message_logs_command_counterexample:
  "running handle1 world1
   \<and> len (command msg_nul) \<le> length (str (command msg_nul))
   \<and> len (command msg_nul) < heap_avail world1
   \<and> process_message handle1 msg_nul world1 = Inr world_nul
   \<and> contents (disk world1) ''sample-output.txt'' = []
   \<and> contents (disk world_nul) ''sample-output.txt'' = ''PI'' @ [newline]
   \<and> contents (disk world_nul) ''sample-output.txt''
       \<noteq> contents (disk world1) ''sample-output.txt''
           @ take (len (command msg_nul)) (str (command msg_nul)) @ [newline]
   \<and> running handle1 world_short
   \<and> len (command msg_ping) \<le> length (str (command msg_ping))
   \<and> NUL \<notin> set (take (len (command msg_ping)) (str (command msg_ping)))
   \<and> heap_avail world_short = 4
   \<and> process_message handle1 msg_ping world_short = Inl Invalid_string"
proof -
  have fits: "len (command msg_nul) < heap_avail world1"
    by (simp add: msg_nul_def world1_eq)
  have before: "contents (disk world1) ''sample-output.txt'' = []"
    by (simp add: world1_eq contents_def)
  have after: "contents (disk world_nul) ''sample-output.txt'' = ''PI'' @ [newline]"
    by (simp add: world_nul_eq contents_def)
  have "''PI'' @ [newline] \<noteq> take (len (command msg_nul)) (str (command msg_nul)) @ [newline]"
    by (simp add: msg_nul_def NUL_def newline_def)
  then have differ: "contents (disk world_nul) ''sample-output.txt''
       \<noteq> contents (disk world1) ''sample-output.txt''
           @ take (len (command msg_nul)) (str (command msg_nul)) @ [newline]"
    unfolding before after by simp
  have left: "heap_avail world_short = 4"
    by (simp add: world_short_def)
  from running_world1 nul_readable fits nul_world1 before after differ
    running_short ping_readable ping_clean left ping_short
  show ?thesis by blast
qed

text \<open>
  Claim C7, as amended. Whenever \<^verbatim>\<open>strndup\<close> can allocate its copy of the command,
  the line \<^verbatim>\<open>process_message\<close> writes (to an open stream with nothing unflushed,
  the \<open>len\<close> bytes of the command being readable) is the part of the first \<open>len\<close>
  bytes of the command that precedes the first \<^verbatim>\<open>NUL\<close> byte, then a newline. If
  there is a \<^verbatim>\<open>NUL\<close> at an index \<open>i\<close> below \<open>len\<close>, at most the \<open>i\<close> bytes
  before it are written and the bytes after it are dropped; if there is none, exactly
  \<open>len\<close> bytes and the newline are written.
\<close>

theorem process_message_stops_at_NUL:
  assumes "stream_of w S = Some f" and "buf f = []"
    and "len (command msg) \<le> length (str (command msg))"
    and "strnlen (str (command msg)) (len (command msg)) < heap_avail w"
  shows "\<exists>w'. process_message S msg w = Inr w'
     \<and> written S w w'
         = takeWhile (\<lambda>c. c \<noteq> NUL) (take (len (command msg)) (str (command msg))) @ [newline]
     \<and> (\<forall>i < len (command msg). str (command msg) ! i = NUL \<longrightarrow>
           (\<exists>j \<le> i. written S w w' = take j (str (command msg)) @ [newline]))
     \<and> (NUL \<notin> set (take (len (command msg)) (str (command msg))) \<longrightarrow>
           written S w w' = take (len (command msg)) (str (command msg)) @ [newline]
           \<and> length (written S w w') = len (command msg) + 1)"
proof -
  let ?s = "str (command msg)" and ?n = "len (command msg)"
  from process_message_written [OF assms(1,2) readable_no_overrun [OF assms(3)] assms(4)]
  obtain w' where ok: "process_message S msg w = Inr w'"
    and wr: "written S w w' = takeWhile (\<lambda>c. c \<noteq> NUL) (take ?n ?s) @ [newline]" by blast
  have cut: "\<exists>j \<le> i. written S w w' = take j ?s @ [newline]" if "i < ?n" "?s ! i = NUL" for i
  proof -
    from that assms(3) have "strnlen ?s ?n \<le> i" by (intro strnlen_le_NUL) simp_all
    moreover have "written S w w' = take (strnlen ?s ?n) ?s @ [newline]"
      by (simp add: wr take_strnlen)
    ultimately show ?thesis by blast
  qed
  have whole: "written S w w' = take ?n ?s @ [newline] \<and> length (written S w w') = ?n + 1"
    if "NUL \<notin> set (take ?n ?s)"
    using assms(3) by (simp add: wr no_NUL_whole [OF that])
  from ok wr cut whole show ?thesis by blast
qed

theorem process_message_stops_at_NUL_witness:
  "stream_of world1 handle1 = Some \<lparr>path = ''sample-output.txt'', pos = 0, buf = []\<rparr>
   \<and> len (command msg_nul) \<le> length (str (command msg_nul))
   \<and> strnlen (str (command msg_nul)) (len (command msg_nul)) < heap_avail world1
   \<and> str (command msg_nul) ! 2 = NUL
   \<and> process_message handle1 msg_nul world1 = Inr world_nul
   \<and> written handle1 world1 world_nul = ''PI'' @ [newline]
   \<and> len (command msg_ping) \<le> length (str (command msg_ping))
   \<and> strnlen (str (command msg_ping)) (len (command msg_ping)) < heap_avail world1
   \<and> NUL \<notin> set (take (len (command msg_ping)) (str (command msg_ping)))
   \<and> process_message handle1 msg_ping world1 = Inr world2
   \<and> written handle1 world1 world2 = ''PING'' @ [newline]"
proof -
  have at2: "str (command msg_nul) ! 2 = NUL"
    by (simp add: msg_nul_def)
  have cut: "takeWhile (\<lambda>c. c \<noteq> NUL) (take (len (command msg_nul)) (str (command msg_nul))) = ''PI''"
    by (simp add: msg_nul_def NUL_def)
  from process_message_stops_at_NUL [OF stream_world1 _ nul_readable nul_fits]
  have short: "written handle1 world1 world_nul = ''PI'' @ [newline]"
    by (simp add: nul_world1 cut)
  have clean: "NUL \<notin> set (take (len (command msg_ping)) (str (command msg_ping)))"
    by (simp add: msg_ping_def NUL_def)
  have name: "take (len (command msg_ping)) (str (command msg_ping)) = ''PING''"
    by (simp add: msg_ping_def)
  have flushed: "buf \<lparr>path = ''sample-output.txt'', pos = 0, buf = []\<rparr> = []"
    by simp
  from process_message_stops_at_NUL [OF stream_world1 flushed ping_readable ping_fits]
  obtain w' where w': "process_message handle1 msg_ping world1 = Inr w'"
    "NUL \<notin> set (take (len (command msg_ping)) (str (command msg_ping))) \<longrightarrow>
       written handle1 world1 w' = take (len (command msg_ping)) (str (command msg_ping)) @ [newline]
       \<and> length (written handle1 world1 w') = len (command msg_ping) + 1"
    by blast
  from w'(1) have "w' = world2" by (simp add: ping_world1)
  with w'(2) clean
  have whole: "written handle1 world1 world2 = ''PING'' @ [newline]"
    by (simp only: name) simp
  from stream_world1 nul_readable nul_fits at2 nul_world1 short
    ping_readable ping_fits clean ping_world1 whole
  show ?thesis by blast
qed

text \<open>
  The claim as first stated fails when the copy cannot be allocated: with two bytes
  left, \<^verbatim>\<open>strndup\<close> cannot copy \<^verbatim>\<open>PI\<close> and its terminator out of
  \<^verbatim>\<open>P I NUL N G\<close>; it returns \<^verbatim>\<open>NULL\<close>, the handler passes that to \<^verbatim>\<open>%s\<close>
  unchecked, and the call is undefined instead of writing the line \<^verbatim>\<open>PI\<close>.
\<close>

theorem process_message_stops_at_NUL_counterexample:
  "stream_of world_tight handle1 = Some \<lparr>path = ''sample-output.txt'', pos = 0, buf = []\<rparr>
   \<and> len (command msg_nul) \<le> length (str (command msg_nul))
   \<and> takeWhile (\<lambda>c. c \<noteq> NUL) (take (len (command msg_nul)) (str (command msg_nul))) = ''PI''
   \<and> heap_avail world_tight = 2
   \<and> process_message handle1 msg_nul world_tight = Inl Invalid_string"
proof -
  have cut: "takeWhile (\<lambda>c. c \<noteq> NUL) (take (len (command msg_nul)) (str (command msg_nul))) = ''PI''"
    by (simp add: msg_nul_def NUL_def)
  have left: "heap_avail world_tight = 2"
    by (simp add: world_tight_def)
  from stream_tight nul_readable cut left nul_tight show ?thesis by blast
qed

subsection \<open>No state between calls\<close>

text \<open>
  Claim C4, as amended. Whenever \<^verbatim>\<open>strndup\<close> can allocate its copy of the command in
  both calls, the bytes \<^verbatim>\<open>process_message\<close> writes are a function of the command
  field (\<open>str\<close> and \<open>len\<close>) alone: two calls whose messages have equal command fields
  write equal bytes, whatever the two worlds are (whichever messages were handled
  before, whichever stream is used) and whatever the other fields of the two messages
  are. The streams have nothing unflushed, as is the case after \<^verbatim>\<open>start\<close> and after
  every call of the handler.
\<close>

theorem process_message_deterministic:
  assumes "stream_of w1 S1 = Some f1" and "buf f1 = []"
    and "stream_of w2 S2 = Some f2" and "buf f2 = []"
    and "command m1 = command m2"
    and "len (command m1) \<le> length (str (command m1))"
    and "strnlen (str (command m1)) (len (command m1)) < heap_avail w1"
    and "strnlen (str (command m1)) (len (command m1)) < heap_avail w2"
  shows "\<exists>w1' w2'. process_message S1 m1 w1 = Inr w1' \<and> process_message S2 m2 w2 = Inr w2'
           \<and> written S1 w1 w1' = written S2 w2 w2'"
proof -
  have rd1: "\<not> (strnlen (str (command m1)) (len (command m1)) = length (str (command m1))
               \<and> length (str (command m1)) < len (command m1))"
    by (rule readable_no_overrun [OF assms(6)])
  then have rd2: "\<not> (strnlen (str (command m2)) (len (command m2)) = length (str (command m2))
               \<and> length (str (command m2)) < len (command m2))"
    by (simp add: assms(5) [symmetric])
  have mem2: "strnlen (str (command m2)) (len (command m2)) < heap_avail w2"
    using assms(8) by (simp add: assms(5) [symmetric])
  from process_message_written [OF assms(1,2) rd1 assms(7)]
  obtain w1' where 1: "process_message S1 m1 w1 = Inr w1'"
    "written S1 w1 w1' = takeWhile (\<lambda>c. c \<noteq> NUL) (take (len (command m1)) (str (command m1))) @ [newline]"
    by blast
  from process_message_written [OF assms(3,4) rd2 mem2]
  obtain w2' where 2: "process_message S2 m2 w2 = Inr w2'"
    "written S2 w2 w2' = takeWhile (\<lambda>c. c \<noteq> NUL) (take (len (command m2)) (str (command m2))) @ [newline]"
    by blast
  from 1 2 assms(5) show ?thesis by simp
qed

theorem process_message_deterministic_witness:
  "stream_of world1 handle1 = Some \<lparr>path = ''sample-output.txt'', pos = 0, buf = []\<rparr>
   \<and> stream_of world2 handle1 = Some \<lparr>path = ''sample-output.txt'', pos = 5, buf = []\<rparr>
   \<and> command msg_ping = command msg_ping_from
   \<and> prefix msg_ping \<noteq> prefix msg_ping_from
   \<and> process_message handle1 msg_ping world1 = Inr world2
   \<and> written handle1 world1 world2
       = written handle1 world2 (projr (process_message handle1 msg_ping_from world2))"
proof -
  have differ: "prefix msg_ping \<noteq> prefix msg_ping_from"
    by (simp add: msg_ping_def msg_ping_from_def no_string_def)
  from process_message_deterministic
    [OF stream_world1 _ stream_world2 _ same_command ping_readable ping_fits ping_fits2]
  have "written handle1 world1 world2
       = written handle1 world2 (projr (process_message handle1 msg_ping_from world2))"
    by (auto simp: ping_world1)
  with stream_world1 stream_world2 same_command differ ping_world1 show ?thesis by blast
qed

text \<open>
  The claim as first stated fails when one of the two calls cannot allocate the copy:
  the same command \<^verbatim>\<open>PING\<close> is written as \<^verbatim>\<open>PING\<close> and a newline by the first
  call, while the second call, in a world where the allocator has nothing left, passes
  the \<^verbatim>\<open>NULL\<close> that \<^verbatim>\<open>strndup\<close> returns to \<^verbatim>\<open>%s\<close> and is undefined.
\<close>

theorem process_message_deterministic_counterexample:
  "stream_of world1 handle1 = Some \<lparr>path = ''sample-output.txt'', pos = 0, buf = []\<rparr>
   \<and> stream_of world2_spent handle1 = Some \<lparr>path = ''sample-output.txt'', pos = 5, buf = []\<rparr>
   \<and> command msg_ping = command msg_ping_from
   \<and> len (command msg_ping) \<le> length (str (command msg_ping))
   \<and> process_message handle1 msg_ping world1 = Inr world2
   \<and> written handle1 world1 world2 = ''PING'' @ [newline]
   \<and> heap_avail world2_spent = 0
   \<and> process_message handle1 msg_ping_from world2_spent = Inl Invalid_string"
proof -
  have left: "heap_avail world2_spent = 0"
    by (simp add: world2_spent_def)
  from stream_world1 stream_spent same_command ping_readable ping_world1 written_ping left
    ping_from_spent
  show ?thesis by blast
qed

subsection \<open>What the message handler leaves alone\<close>




end
